theory Spec2Isabelle
  imports Main "HOL-Library.AList"
begin

section \<open>Values of the program\<close>

text \<open>
  The game of \<^verbatim>\<open>src/index.ts\<close> is embedded as pure functions on two records: the
  document built by class \<^verbatim>\<open>DOM\<close> and the fields of class \<^verbatim>\<open>TicTacToe\<close>. A
  method that can throw returns \<open>error + 'a\<close>, with \<open>Inl\<close> the exception.

  Modelling decisions:
  \<^item> \<^verbatim>\<open>row\<close> and \<open>col\<close> are integers (\<open>int\<close>); fractional numbers are not modelled.
  \<^item> A score is a JavaScript number: a double that holds an integer (\<open>Num\<close>), or
    \<open>NaN\<close>. Adding 1 rounds to the nearest double, so that it is exact up to \<open>2^53\<close>
    and leaves \<open>2^53\<close> itself unchanged.
  \<^item> A read of an array outside its bounds, or of an object at a missing key, is
    \<open>undefined\<close>, modelled as \<open>None\<close>; a property read on \<open>undefined\<close> or \<open>null\<close>
    throws \<open>TypeError\<close>.
  \<^item> The page supplies the container \<^verbatim>\<open>#game\<close> and nothing else; it is taken to exist.
  \<^item> The selectors and class names that the code builds from \<^verbatim>\<open>currentPlayer\<close> are
    modelled as equality of identifiers, which is what they are for the marks \<open>x\<close>
    and \<open>o\<close>.
  \<^item> The constant fields \<^verbatim>\<open>players = {x: 'x', o: 'o'}\<close> and \<^verbatim>\<open>wait = 2500\<close> are assigned
    once in the constructor and never written again; they are constants here.
  \<^item> A pending \<^verbatim>\<open>setTimeout\<close> callback is counted in the field \<open>timers\<close>; the length
    of the delay is not modelled, only that the callback runs later, between two
    event handlers.
\<close>

datatype error = TypeError

datatype number = Num int | NaN

definition js_index :: "'a list \<Rightarrow> int \<Rightarrow> 'a option" where
  \<comment> \<open>\<^verbatim>\<open>xs[i]\<close> on an array: \<open>None\<close> is \<open>undefined\<close>.\<close>
  "js_index xs i = (if 0 \<le> i \<and> i < int (length xs) then Some (xs ! nat i) else None)"

definition truthy :: "string option \<Rightarrow> bool" where
  \<comment> \<open>Truthiness of a value of type \<^verbatim>\<open>string | undefined\<close>.\<close>
  "truthy v = (case v of None \<Rightarrow> False | Some w \<Rightarrow> w \<noteq> [])"

fun show_nat :: "nat \<Rightarrow> string" where
  "show_nat n =
     (if n < 10 then [char_of (48 + n)]
      else show_nat (n div 10) @ [char_of (48 + n mod 10)])"

declare show_nat.simps [simp del]

definition show_int :: "int \<Rightarrow> string" where
  \<comment> \<open>Decimal digits, as JavaScript prints an integer below \<open>10^21\<close>.\<close>
  "show_int i = (if i < 0 then CHR ''-'' # show_nat (nat (- i)) else show_nat (nat i))"

fun show_number :: "number option \<Rightarrow> string" where
  \<comment> \<open>The interpolation \<^verbatim>\<open>${d}\<close> of a template literal.\<close>
  "show_number None = ''undefined''"
| "show_number (Some NaN) = ''NaN''"
| "show_number (Some (Num i)) = show_int i"

section \<open>The display: class DOM\<close>

text \<open>
  The document under \<^verbatim>\<open>#game\<close>, in document order:
  \<^item> \<open>scores\<close>: the elements \<^verbatim>\<open>#score-x\<close> and \<^verbatim>\<open>#score-o\<close>, each as its id and its text;
  \<^item> \<open>grid\<close>: the rows of the board (\<^verbatim>\<open>data-row\<close> is the position in the list), each a
    list of cells (\<^verbatim>\<open>data-col\<close> is the position), each cell the list of the marks
    (\<^verbatim>\<open>span\<close> elements, by their text) appended to it;
  \<^item> \<open>messages\<close>: the text of every element of class \<^verbatim>\<open>message\<close>.
\<close>

record DOM =
  scores :: "(string \<times> string) list"
  grid :: "string list list list"
  messages :: "string list"

definition empty_page :: DOM where
  "empty_page = \<lparr> scores = [], grid = [], messages = [] \<rparr>"

definition printGameBoard :: "DOM \<Rightarrow> string list list \<Rightarrow> DOM" where
  \<comment> \<open>Called once, by \<^verbatim>\<open>startGame\<close>, on a page that has no board yet.\<close>
  "printGameBoard d boardData = d\<lparr>grid := map (\<lambda>row. map (\<lambda>col. []) row) boardData\<rparr>"

definition updateBoard :: "DOM \<Rightarrow> int \<Rightarrow> int \<Rightarrow> string \<Rightarrow> error + DOM" where
  "updateBoard d row col currentPlayer =
     (case js_index (grid d) row of
        None \<Rightarrow> Inl TypeError
      | Some boardRow \<Rightarrow>
          (case js_index boardRow col of
             None \<Rightarrow> Inl TypeError
           | Some cell \<Rightarrow>
               Inr (d\<lparr>grid := (grid d)[nat row := boardRow[nat col := cell @ [currentPlayer]]]\<rparr>)))"

definition clearGameBoard :: "DOM \<Rightarrow> DOM" where
  "clearGameBoard d = d\<lparr>grid := map (\<lambda>row. map (\<lambda>cell. []) row) (grid d)\<rparr>"

definition printScoreBoard :: "DOM \<Rightarrow> (string \<rightharpoonup> number) \<Rightarrow> DOM" where
  "printScoreBoard d scoreData =
     d\<lparr>scores := scores d @
        [(''score-x'', ''Player 1: '' @ show_number (scoreData ''x'')),
         (''score-o'', ''Player 2: '' @ show_number (scoreData ''o''))]\<rparr>"

definition updateScore :: "DOM \<Rightarrow> (string \<rightharpoonup> number) \<Rightarrow> string \<Rightarrow> error + DOM" where
  "updateScore d currentScore currentPlayer =
     (let ident = ''score-'' @ currentPlayer;
          player = (if currentPlayer = ''x'' then ''Player 1'' else ''Player 2'');
          n = currentScore currentPlayer
      in case map_of (scores d) ident of
           None \<Rightarrow> Inl TypeError
         | Some old \<Rightarrow>
             Inr (d\<lparr>scores := AList.update ident (player @ '': '' @ show_number n) (scores d)\<rparr>))"

definition printMessage :: "DOM \<Rightarrow> string option \<Rightarrow> DOM" where
  "printMessage d winner =
     (let player = (if winner = Some ''x'' then ''Player 1'' else ''Player 2'');
          txt = (if truthy winner then player @ '' wins!'' else ''Nobody wins!'')
      in d\<lparr>messages := messages d @ [txt]\<rparr>)"

definition clearMessage :: "DOM \<Rightarrow> error + DOM" where
  \<comment> \<open>\<^verbatim>\<open>querySelector\<close> gives the first element of class \<^verbatim>\<open>message\<close>, or \<open>null\<close>.\<close>
  "clearMessage d =
     (case messages d of
        [] \<Rightarrow> Inl TypeError
      | message # rest \<Rightarrow> Inr (d\<lparr>messages := rest\<rparr>))"

section \<open>The engine: class TicTacToe\<close>

record TicTacToe =
  display :: DOM
  board :: "string list list"
  waiting :: bool
  score :: "string \<rightharpoonup> number"
  currentPlayer :: string
  timers :: nat

definition players_x :: string where
  "players_x = ''x''"

definition players_o :: string where
  "players_o = ''o''"

definition createBoard :: "string list list" where
  "createBoard = [['''', '''', ''''], ['''', '''', ''''], ['''', '''', '''']]"

definition constructor :: "DOM \<Rightarrow> TicTacToe" where
  "constructor d =
     \<lparr> display = d, board = createBoard, waiting = False,
       score = [''x'' \<mapsto> Num 0, ''o'' \<mapsto> Num 0],
       currentPlayer = players_x, timers = 0 \<rparr>"

definition startGame :: "TicTacToe \<Rightarrow> TicTacToe" where
  "startGame s =
     (let s1 = s\<lparr>display := printScoreBoard (display s) (score s)\<rparr>
      in s1\<lparr>display := printGameBoard (display s1) (board s1)\<rparr>)"

definition cell :: "string list list \<Rightarrow> int \<Rightarrow> int \<Rightarrow> error + string option" where
  \<comment> \<open>The read \<^verbatim>\<open>board[row][col]\<close>: it throws when \<^verbatim>\<open>board[row]\<close> is \<open>undefined\<close>.\<close>
  "cell b row col =
     (case js_index b row of
        None \<Rightarrow> Inl TypeError
      | Some r \<Rightarrow> Inr (js_index r col))"

definition write_cell :: "string list list \<Rightarrow> int \<Rightarrow> int \<Rightarrow> string \<Rightarrow> string list list" where
  \<comment> \<open>The write \<^verbatim>\<open>board[row][col] = v\<close>. Its only use is behind the guard
      \<^verbatim>\<open>board[row][col] === ''\<close>, where both indices are in range.\<close>
  "write_cell b row col v = b[nat row := (b ! nat row)[nat col := v]]"

definition is_player :: "TicTacToe \<Rightarrow> int \<Rightarrow> int \<Rightarrow> error + bool" where
  \<comment> \<open>\<^verbatim>\<open>this.board[row][col] === this.currentPlayer\<close>\<close>
  "is_player s row col =
     (case cell (board s) row col of
        Inl e \<Rightarrow> Inl e
      | Inr v \<Rightarrow> Inr (v = Some (currentPlayer s)))"

definition and_then :: "error + bool \<Rightarrow> error + bool \<Rightarrow> error + bool" where
  \<comment> \<open>\<^verbatim>\<open>a && b\<close>: \<open>b\<close> is evaluated only when \<open>a\<close> is true.\<close>
  "and_then a b = (case a of Inl e \<Rightarrow> Inl e | Inr t \<Rightarrow> if t then b else Inr False)"

definition or_else :: "error + bool \<Rightarrow> error + bool \<Rightarrow> error + bool" where
  \<comment> \<open>\<^verbatim>\<open>a || b\<close>: \<open>b\<close> is evaluated only when \<open>a\<close> is false.\<close>
  "or_else a b = (case a of Inl e \<Rightarrow> Inl e | Inr t \<Rightarrow> if t then Inr True else b)"

definition isGameWon :: "TicTacToe \<Rightarrow> int \<Rightarrow> int \<Rightarrow> error + bool" where
  "isGameWon s row col =
     or_else
       (or_else
          (and_then (is_player s 0 col) (and_then (is_player s 1 col) (is_player s 2 col)))
          (and_then (is_player s row 0) (and_then (is_player s row 1) (is_player s row 2))))
       (or_else
          (and_then (is_player s 0 0) (and_then (is_player s 1 1) (is_player s 2 2)))
          (and_then (is_player s 2 0) (and_then (is_player s 1 1) (is_player s 0 2))))"

definition switchPlayer :: "TicTacToe \<Rightarrow> TicTacToe" where
  "switchPlayer s =
     s\<lparr>currentPlayer := (if currentPlayer s = players_x then players_o else players_x)\<rparr>"

fun bit_length :: "nat \<Rightarrow> nat" where
  \<comment> \<open>The number of binary digits of \<open>n\<close>.\<close>
  "bit_length n = (if n = 0 then 0 else Suc (bit_length (n div 2)))"

declare bit_length.simps [simp del]

definition round_double :: "int \<Rightarrow> int" where
  \<comment> \<open>The double nearest to the integer \<open>i\<close>, ties to the even significand: every
      integer up to \<open>2^53\<close> in magnitude is a double; above, a double has 53 binary
      digits, so the doubles about \<open>i\<close> are the multiples of \<open>u\<close>.\<close>
  "round_double i =
     (let a = \<bar>i\<bar> in
      if a \<le> 2 ^ 53 then i
      else
        (let u = 2 ^ (bit_length (nat a) - 53);
             q = a div u;
             r = a mod u;
             q' = (if 2 * r < u then q
                   else if u < 2 * r then q + 1
                   else if even q then q else q + 1)
         in sgn i * (q' * u)))"

definition plus_one :: "number option \<Rightarrow> number" where
  \<comment> \<open>\<^verbatim>\<open>v + 1\<close> in double arithmetic; \<open>undefined + 1\<close> and \<open>NaN + 1\<close> are \<open>NaN\<close>.\<close>
  "plus_one v = (case v of Some (Num n) \<Rightarrow> Num (round_double (n + 1)) | _ \<Rightarrow> NaN)"

definition increaseScore :: "TicTacToe \<Rightarrow> TicTacToe" where
  "increaseScore s =
     s\<lparr>score := (score s)(currentPlayer s \<mapsto> plus_one (score s (currentPlayer s)))\<rparr>"

definition gameOver :: "TicTacToe \<Rightarrow> string option \<Rightarrow> TicTacToe" where
  \<comment> \<open>\<^verbatim>\<open>setTimeout\<close> only schedules the reset: one more pending timer.\<close>
  "gameOver s winner =
     (let s1 = s\<lparr>waiting := True\<rparr>;
          s2 = s1\<lparr>display := printMessage (display s1) winner\<rparr>
      in s2\<lparr>timers := timers s2 + 1\<rparr>)"

definition resetBoard :: "TicTacToe \<Rightarrow> error + TicTacToe" where
  "resetBoard s =
     (case clearMessage (display s) of
        Inl e \<Rightarrow> Inl e
      | Inr d \<Rightarrow> Inr (s\<lparr>display := clearGameBoard d, board := createBoard\<rparr>))"

definition reset_callback :: "TicTacToe \<Rightarrow> error + TicTacToe" where
  \<comment> \<open>The arrow function given to \<^verbatim>\<open>setTimeout\<close> in \<^verbatim>\<open>gameOver\<close>.\<close>
  "reset_callback s =
     (case resetBoard s of
        Inl e \<Rightarrow> Inl e
      | Inr s' \<Rightarrow> Inr (s'\<lparr>waiting := False\<rparr>))"

definition timer_fires :: "TicTacToe \<Rightarrow> error + TicTacToe" where
  \<comment> \<open>A pending timer runs its callback and is pending no more; with no timer
      pending there is no callback to run and nothing happens.\<close>
  "timer_fires s =
     (if 0 < timers s then reset_callback (s\<lparr>timers := timers s - 1\<rparr>) else Inr s)"

definition stalemate :: "string list list \<Rightarrow> string list list" where
  \<comment> \<open>The local constant \<^verbatim>\<open>stalemate\<close> of \<^verbatim>\<open>clickCell\<close>: the rows that still have an
      empty cell, each reduced to its empty cells.\<close>
  "stalemate b =
     filter (\<lambda>row. length row > 0) (map (\<lambda>row. filter (\<lambda>col. col = '''') row) b)"

definition clickCell :: "TicTacToe \<Rightarrow> int \<Rightarrow> int \<Rightarrow> error + TicTacToe" where
  "clickCell s row col =
     (case cell (board s) row col of
        Inl e \<Rightarrow> Inl e
      | Inr v \<Rightarrow>
          (let canContinue = (v = Some '''') in
           if canContinue \<and> \<not> waiting s then
             (let s1 = s\<lparr>board := write_cell (board s) row col (currentPlayer s)\<rparr> in
              case updateBoard (display s1) row col (currentPlayer s1) of
                Inl e \<Rightarrow> Inl e
              | Inr d \<Rightarrow>
                  (let s2 = s1\<lparr>display := d\<rparr> in
                   case isGameWon s2 row col of
                     Inl e \<Rightarrow> Inl e
                   | Inr win \<Rightarrow>
                       if \<not> waiting s2 then
                         (if win then
                            (let s3 = increaseScore s2 in
                             case updateScore (display s3) (score s3) (currentPlayer s3) of
                               Inl e \<Rightarrow> Inl e
                             | Inr d' \<Rightarrow>
                                 Inr (gameOver (s3\<lparr>display := d'\<rparr>) (Some (currentPlayer s3))))
                          else if length (stalemate (board s2)) < 1 then Inr (gameOver s2 None)
                          else Inr (switchPlayer s2))
                       else Inr s2))
           else Inr s))"

section \<open>Vocabulary of the specification\<close>

text \<open>
  The definitions of this section are not code of the program: they are the words the
  properties below are stated in.
\<close>

definition is_grid :: "'a list list \<Rightarrow> bool" where
  \<comment> \<open>Three rows of three cells.\<close>
  "is_grid b \<longleftrightarrow> length b = 3 \<and> list_all (\<lambda>r. length r = 3) b"

definition all_empty :: "string list list \<Rightarrow> bool" where
  "all_empty b \<longleftrightarrow> is_grid b \<and> list_all (\<lambda>row. list_all (\<lambda>c. c = '''') row) b"

definition no_empty_cell :: "string list list \<Rightarrow> bool" where
  "no_empty_cell b \<longleftrightarrow> list_all (\<lambda>row. list_all (\<lambda>c. c \<noteq> '''') row) b"

definition winning_lines :: "(int \<times> int) list list" where
  \<comment> \<open>The three rows, the three columns and the two diagonals, as (row, col) positions.\<close>
  "winning_lines =
     [[(0, 0), (0, 1), (0, 2)], [(1, 0), (1, 1), (1, 2)], [(2, 0), (2, 1), (2, 2)],
      [(0, 0), (1, 0), (2, 0)], [(0, 1), (1, 1), (2, 1)], [(0, 2), (1, 2), (2, 2)],
      [(0, 0), (1, 1), (2, 2)], [(2, 0), (1, 1), (0, 2)]]"

definition fills :: "string list list \<Rightarrow> string \<Rightarrow> (int \<times> int) list \<Rightarrow> bool" where
  \<comment> \<open>Every cell of the line holds the mark \<open>p\<close>.\<close>
  "fills b p line \<longleftrightarrow> list_all (\<lambda>(r, c). cell b r c = Inr (Some p)) line"

definition pivot_checks :: "string list list \<Rightarrow> string \<Rightarrow> int \<Rightarrow> int \<Rightarrow> bool" where
  \<comment> \<open>Column \<open>col\<close>, row \<open>row\<close> and the two diagonals.\<close>
  "pivot_checks b p row col \<longleftrightarrow>
     fills b p [(0, col), (1, col), (2, col)] \<or>
     fills b p [(row, 0), (row, 1), (row, 2)] \<or>
     fills b p [(0, 0), (1, 1), (2, 2)] \<or>
     fills b p [(2, 0), (1, 1), (0, 2)]"

definition accepted :: "TicTacToe \<Rightarrow> int \<Rightarrow> int \<Rightarrow> bool" where
  \<comment> \<open>A valid move: the cell is empty and the game is not waiting.\<close>
  "accepted s row col \<longleftrightarrow> cell (board s) row col = Inr (Some '''') \<and> \<not> waiting s"

definition marked :: "TicTacToe \<Rightarrow> int \<Rightarrow> int \<Rightarrow> TicTacToe" where
  \<comment> \<open>The game once the current player's mark is written at (row, col).\<close>
  "marked s row col = s\<lparr>board := write_cell (board s) row col (currentPlayer s)\<rparr>"

definition wins :: "TicTacToe \<Rightarrow> int \<Rightarrow> int \<Rightarrow> bool" where
  \<comment> \<open>The move wins: the program's own check, on the board with the mark written.\<close>
  "wins s row col \<longleftrightarrow> isGameWon (marked s row col) row col = Inr True"

definition win_message :: "string \<Rightarrow> string" where
  "win_message p = (if p = ''x'' then ''Player 1 wins!'' else ''Player 2 wins!'')"

definition rendered :: "DOM \<Rightarrow> bool" where
  \<comment> \<open>The page after \<^verbatim>\<open>startGame\<close>: a 3x3 grid of cells and the two score elements.\<close>
  "rendered d \<longleftrightarrow>
     is_grid (grid d) \<and>
     map_of (scores d) ''score-x'' \<noteq> None \<and> map_of (scores d) ''score-o'' \<noteq> None"

fun is_count :: "number option \<Rightarrow> bool" where
  "is_count (Some (Num n)) = (0 \<le> n)"
| "is_count v = False"

definition invariant :: "TicTacToe \<Rightarrow> bool" where
  \<comment> \<open>What holds of the game between any two event handlers.\<close>
  "invariant s \<longleftrightarrow>
     is_grid (board s) \<and> rendered (display s) \<and>
     (currentPlayer s = ''x'' \<or> currentPlayer s = ''o'') \<and>
     is_count (score s ''x'') \<and> is_count (score s ''o'') \<and>
     (if waiting s then timers s = 1 \<and> length (messages (display s)) = 1
      else timers s = 0 \<and> messages (display s) = [])"

definition new_game :: TicTacToe where
  \<comment> \<open>The last two lines of the program: \<^verbatim>\<open>new TicTacToe(new DOM())\<close>, then \<^verbatim>\<open>startGame()\<close>.\<close>
  "new_game = startGame (constructor empty_page)"

inductive reachable :: "TicTacToe \<Rightarrow> bool" where
  start: "reachable new_game"
| click: "reachable s \<Longrightarrow> clickCell s row col = Inr s' \<Longrightarrow> reachable s'"
| timeout: "reachable s \<Longrightarrow> timer_fires s = Inr s' \<Longrightarrow> reachable s'"

fun play :: "TicTacToe \<Rightarrow> (int \<times> int) list \<Rightarrow> error + TicTacToe" where
  "play s [] = Inr s"
| "play s ((row, col) # clicks) =
     (case clickCell s row col of Inl e \<Rightarrow> Inl e | Inr s' \<Rightarrow> play s' clicks)"

definition after_clicks :: "(int \<times> int) list \<Rightarrow> TicTacToe" where
  \<comment> \<open>The game after a sequence of clicks on a fresh page (the fresh game itself if
      one of the clicks throws).\<close>
  "after_clicks clicks = (case play new_game clicks of Inl e \<Rightarrow> new_game | Inr s \<Rightarrow> s)"

definition clickCell_single_guard :: "TicTacToe \<Rightarrow> int \<Rightarrow> int \<Rightarrow> error + TicTacToe" where
  \<comment> \<open>\<^verbatim>\<open>clickCell\<close> with the inner \<^verbatim>\<open>if (!this.waiting)\<close> removed.\<close>
  "clickCell_single_guard s row col =
     (case cell (board s) row col of
        Inl e \<Rightarrow> Inl e
      | Inr v \<Rightarrow>
          (let canContinue = (v = Some '''') in
           if canContinue \<and> \<not> waiting s then
             (let s1 = s\<lparr>board := write_cell (board s) row col (currentPlayer s)\<rparr> in
              case updateBoard (display s1) row col (currentPlayer s1) of
                Inl e \<Rightarrow> Inl e
              | Inr d \<Rightarrow>
                  (let s2 = s1\<lparr>display := d\<rparr> in
                   case isGameWon s2 row col of
                     Inl e \<Rightarrow> Inl e
                   | Inr win \<Rightarrow>
                       (if win then
                          (let s3 = increaseScore s2 in
                           case updateScore (display s3) (score s3) (currentPlayer s3) of
                             Inl e \<Rightarrow> Inl e
                           | Inr d' \<Rightarrow>
                               Inr (gameOver (s3\<lparr>display := d'\<rparr>) (Some (currentPlayer s3))))
                        else if length (stalemate (board s2)) < 1 then Inr (gameOver s2 None)
                        else Inr (switchPlayer s2))))
           else Inr s))"

lemmas eval_defs =
  new_game_def startGame_def constructor_def empty_page_def printScoreBoard_def
  printGameBoard_def createBoard_def players_x_def players_o_def Let_def
  clickCell_def cell_def js_index_def write_cell_def updateBoard_def isGameWon_def
  is_player_def and_then_def or_else_def stalemate_def switchPlayer_def increaseScore_def
  gameOver_def printMessage_def updateScore_def plus_one_def round_double_def truthy_def
  show_int_def
  after_clicks_def

section \<open>Counting in doubles\<close>

lemma bit_length_bounds: "2 ^ k \<le> n \<Longrightarrow> n < 2 ^ Suc k \<Longrightarrow> bit_length n = Suc k"
proof (induction k arbitrary: n)
  case 0
  then have "n = 1" by simp
  then show ?case by (simp add: bit_length.simps)
next
  case (Suc k)
  from Suc.prems have "2 ^ k \<le> n div 2" "n div 2 < 2 ^ Suc k" by auto
  then have "bit_length (n div 2) = Suc k" by (rule Suc.IH)
  moreover from Suc.prems have "n \<noteq> 0" by auto
  ultimately show ?case by (subst bit_length.simps) simp
qed

lemma round_double_exact: "\<bar>i\<bar> \<le> 2 ^ 53 \<Longrightarrow> round_double i = i"
  by (simp add: round_double_def Let_def)

lemma round_double_limit: "round_double (2 ^ 53 + 1) = 2 ^ 53"
proof -
  have "bit_length (nat (2 ^ 53 + 1)) = Suc 53"
    by (rule bit_length_bounds) simp_all
  then show ?thesis
    by (simp add: round_double_def Let_def)
qed

lemma plus_one_exact: "0 \<le> n \<Longrightarrow> n < 2 ^ 53 \<Longrightarrow> plus_one (Some (Num n)) = Num (n + 1)"
  by (simp add: plus_one_def round_double_exact)

lemma plus_one_limit: "plus_one (Some (Num (2 ^ 53))) = Num (2 ^ 53)"
  using round_double_limit by (simp add: plus_one_def)

lemma round_double_nonneg: "0 \<le> i \<Longrightarrow> 0 \<le> round_double i"
proof (cases "\<bar>i\<bar> \<le> 2 ^ 53")
  case True
  assume "0 \<le> i"
  with True show ?thesis by (simp add: round_double_exact)
next
  case False
  assume i: "0 \<le> i"
  define u :: int where "u = 2 ^ (bit_length (nat \<bar>i\<bar>) - 53)"
  have u: "0 < u" by (simp add: u_def)
  with i have q: "0 \<le> \<bar>i\<bar> div u"
    by (simp add: pos_imp_zdiv_nonneg_iff)
  from False i have s: "sgn i = 1" by auto
  from False have "round_double i =
      sgn i * ((if 2 * (\<bar>i\<bar> mod u) < u then \<bar>i\<bar> div u
                else if u < 2 * (\<bar>i\<bar> mod u) then \<bar>i\<bar> div u + 1
                else if even (\<bar>i\<bar> div u) then \<bar>i\<bar> div u else \<bar>i\<bar> div u + 1) * u)"
    by (simp add: round_double_def Let_def u_def)
  with s q u show ?thesis by simp
qed

lemma is_count_plus_one: "is_count v \<Longrightarrow> is_count (Some (plus_one v))"
  by (cases v rule: is_count.cases) (simp_all add: plus_one_def round_double_nonneg)

section \<open>Boards and cells\<close>

lemma length3: "length xs = 3 \<Longrightarrow> \<exists>a b c. xs = [a, b, c]"
  by (cases xs; simp; cases "tl xs"; simp; cases "tl (tl xs)"; auto)

lemma is_grid_explicit:
  assumes "is_grid b"
  obtains a0 a1 a2 b0 b1 b2 c0 c1 c2 where "b = [[a0, a1, a2], [b0, b1, b2], [c0, c1, c2]]"
proof -
  from assms obtain r0 r1 r2 where b: "b = [r0, r1, r2]"
    unfolding is_grid_def using length3 by blast
  with assms have "length r0 = 3" "length r1 = 3" "length r2 = 3"
    by (simp_all add: is_grid_def)
  then obtain a0 a1 a2 b0 b1 b2 c0 c1 c2 where
    "r0 = [a0, a1, a2]" "r1 = [b0, b1, b2]" "r2 = [c0, c1, c2]"
    using length3 by metis
  with b show ?thesis using that by blast
qed

lemma js_index3:
  "js_index [a, b, c] i =
     (if i = 0 then Some a else if i = 1 then Some b else if i = 2 then Some c else None)"
  by (auto simp: js_index_def nth_Cons split: nat.splits)

lemma cell_grid:
  "cell [[a0, a1, a2], [b0, b1, b2], [c0, c1, c2]] r c =
     (if r = 0 then Inr (js_index [a0, a1, a2] c)
      else if r = 1 then Inr (js_index [b0, b1, b2] c)
      else if r = 2 then Inr (js_index [c0, c1, c2] c)
      else Inl TypeError)"
  by (simp add: cell_def js_index3)

lemma cell_empty_range:
  assumes "is_grid b" "cell b row col = Inr (Some v)"
  shows "0 \<le> row \<and> row < 3 \<and> 0 \<le> col \<and> col < 3"
proof -
  from assms(1) obtain a0 a1 a2 b0 b1 b2 c0 c1 c2 where
    b: "b = [[a0, a1, a2], [b0, b1, b2], [c0, c1, c2]]"
    by (rule is_grid_explicit)
  from assms(2) show ?thesis
    by (auto simp: b cell_grid js_index3 split: if_splits)
qed

lemma cell_in_range:
  assumes "is_grid b" "0 \<le> row" "row < 3" "0 \<le> col" "col < 3"
  shows "cell b row col = Inr (Some (b ! nat row ! nat col))"
proof -
  from assms have "js_index b row = Some (b ! nat row)"
    by (simp add: js_index_def is_grid_def)
  moreover from assms have "length (b ! nat row) = 3"
    by (simp add: is_grid_def list_all_length)
  with assms have "js_index (b ! nat row) col = Some (b ! nat row ! nat col)"
    by (simp add: js_index_def)
  ultimately show ?thesis by (simp add: cell_def)
qed

lemma cell_row_in_range:
  assumes "is_grid b" "0 \<le> row" "row < 3"
  shows "cell b row col = Inr (js_index (b ! nat row) col)"
  using assms by (simp add: cell_def js_index_def is_grid_def)

lemma cell_row_out_of_range:
  assumes "is_grid b" "row < 0 \<or> 2 < row"
  shows "cell b row col = Inl TypeError"
  using assms by (auto simp: cell_def js_index_def is_grid_def)

lemma is_grid_update:
  assumes "is_grid g"
  shows "is_grid (g[i := (g ! i)[j := v]])"
proof (cases "i < length g")
  case True
  with assms show ?thesis
    by (auto simp: is_grid_def list_all_length nth_list_update)
next
  case False
  then have "g[i := (g ! i)[j := v]] = g"
    by (simp add: list_update_beyond)
  with assms show ?thesis by simp
qed

lemma is_grid_write_cell: "is_grid b \<Longrightarrow> is_grid (write_cell b row col v)"
  by (simp add: write_cell_def is_grid_update)

lemma is_grid_clear: "is_grid g \<Longrightarrow> is_grid (map (\<lambda>row. map (\<lambda>cell. []) row) g)"
  by (simp add: is_grid_def list_all_length)

lemma is_grid_createBoard: "is_grid createBoard"
  by (simp add: createBoard_def is_grid_def)

lemma stalemate_Nil: "stalemate b = [] \<longleftrightarrow> no_empty_cell b"
proof -
  have row: "filter (\<lambda>c. c = '''') r = [] \<longleftrightarrow> list_all (\<lambda>c. c \<noteq> '''') r"
    for r :: "string list"
    by (induction r) auto
  show ?thesis
    unfolding stalemate_def no_empty_cell_def
    by (induction b) (auto simp: row)
qed

lemma stalemate_no_empty_cell: "length (stalemate b) < 1 \<longleftrightarrow> no_empty_cell b"
  by (simp add: stalemate_Nil)

section \<open>The win check\<close>

lemma isGameWon_pivot:
  assumes "is_grid (board s)" "0 \<le> row" "row < 3"
  shows "isGameWon s row col = Inr (pivot_checks (board s) (currentPlayer s) row col)"
proof -
  from assms(1) obtain a0 a1 a2 b0 b1 b2 c0 c1 c2 where
    b: "board s = [[a0, a1, a2], [b0, b1, b2], [c0, c1, c2]]"
    by (rule is_grid_explicit)
  from assms(2,3) have r: "row = 0 \<or> row = 1 \<or> row = 2" by arith
  have c: "col = 0 \<or> col = 1 \<or> col = 2 \<or> (col \<noteq> 0 \<and> col \<noteq> 1 \<and> col \<noteq> 2)" by arith
  from r c show ?thesis
    by (elim disjE)
      (simp_all add: isGameWon_def is_player_def b cell_grid js_index3 and_then_def or_else_def
        pivot_checks_def fills_def)
qed

lemma pivot_line:
  assumes "line \<in> set winning_lines" "fills b p line" "(row, col) \<in> set line"
  shows "pivot_checks b p row col"
proof -
  from assms(1) consider
      "line = [(0, 0), (0, 1), (0, 2)]" | "line = [(1, 0), (1, 1), (1, 2)]"
    | "line = [(2, 0), (2, 1), (2, 2)]" | "line = [(0, 0), (1, 0), (2, 0)]"
    | "line = [(0, 1), (1, 1), (2, 1)]" | "line = [(0, 2), (1, 2), (2, 2)]"
    | "line = [(0, 0), (1, 1), (2, 2)]" | "line = [(2, 0), (1, 1), (0, 2)]"
    by (auto simp: winning_lines_def)
  then show ?thesis
    using assms(2,3) by cases (auto simp: pivot_checks_def fills_def)
qed

lemma is_player_display [simp]:
  "is_player (s\<lparr>display := d\<rparr>) row col = is_player s row col"
  by (simp add: is_player_def split: sum.splits)

lemma isGameWon_display [simp]: "isGameWon (s\<lparr>display := d\<rparr>) row col = isGameWon s row col"
  by (simp add: isGameWon_def)

text \<open>
  C1. On a 3x3 board \<^verbatim>\<open>isGameWon(row, col)\<close> returns, for a row in range and any column,
  exactly the disjunction of the four pivoted checks: column \<open>col\<close>, row \<open>row\<close> and the
  two diagonals. So whenever the current player's mark fills one of the eight winning
  lines and (row, col) is any of the three positions of that line, it returns true.
\<close>

theorem isGameWon_winning_line:
  "is_grid (board s) \<Longrightarrow> 0 \<le> row \<Longrightarrow> row < 3 \<Longrightarrow>
     isGameWon s row col = Inr (pivot_checks (board s) (currentPlayer s) row col) \<and>
     (\<forall>line \<in> set winning_lines.
        fills (board s) (currentPlayer s) line \<and> (row, col) \<in> set line \<longrightarrow>
        isGameWon s row col = Inr True)"
  using isGameWon_pivot pivot_line by simp

theorem isGameWon_winning_line_witness:
  "is_grid (board (marked (after_clicks [(0, 0), (1, 0), (0, 1), (1, 1)]) 0 2)) \<and>
   [(0, 0), (0, 1), (0, 2)] \<in> set winning_lines \<and>
   fills (board (marked (after_clicks [(0, 0), (1, 0), (0, 1), (1, 1)]) 0 2)) ''x''
     [(0, 0), (0, 1), (0, 2)] \<and>
   currentPlayer (marked (after_clicks [(0, 0), (1, 0), (0, 1), (1, 1)]) 0 2) = ''x'' \<and>
   isGameWon (marked (after_clicks [(0, 0), (1, 0), (0, 1), (1, 1)]) 0 2) 0 2 = Inr True"
proof -
  let ?s = "marked (after_clicks [(0, 0), (1, 0), (0, 1), (1, 1)]) 0 2"
  have b: "board ?s = [[''x'', ''x'', ''x''], [''o'', ''o'', ''''], ['''', '''', '''']]"
    and p: "currentPlayer ?s = ''x''"
    by (simp_all add: marked_def eval_defs)
  have g: "is_grid (board ?s)"
    by (simp add: b is_grid_def)
  have l: "[(0, 0), (0, 1), (0, 2)] \<in> set winning_lines"
    by (simp add: winning_lines_def)
  have f: "fills (board ?s) (currentPlayer ?s) [(0, 0), (0, 1), (0, 2)]"
    by (simp add: b p fills_def cell_grid js_index3)
  from isGameWon_winning_line [OF g, of 0 2] l f
  have "isGameWon ?s 0 2 = Inr True" by auto
  with g l f p show ?thesis by simp
qed

section \<open>The display never fails on a rendered page\<close>

lemma updateBoard_rendered:
  assumes "is_grid (grid d)" "0 \<le> row" "row < 3" "0 \<le> col" "col < 3"
  obtains d' where "updateBoard d row col p = Inr d'" "is_grid (grid d')"
    "scores d' = scores d" "messages d' = messages d"
proof -
  from assms(1) have l: "length (grid d) = 3" by (simp add: is_grid_def)
  with assms have r: "js_index (grid d) row = Some (grid d ! nat row)"
    by (simp add: js_index_def)
  from assms l have "length (grid d ! nat row) = 3"
    by (simp add: is_grid_def list_all_length)
  with assms have c: "js_index (grid d ! nat row) col = Some (grid d ! nat row ! nat col)"
    by (simp add: js_index_def)
  let ?d = "d\<lparr>grid := (grid d)[nat row := (grid d ! nat row)[nat col := grid d ! nat row ! nat col @ [p]]]\<rparr>"
  have "updateBoard d row col p = Inr ?d"
    by (simp add: updateBoard_def r c)
  moreover from assms(1) have "is_grid (grid ?d)"
    by (simp add: is_grid_update)
  ultimately show ?thesis using that by simp
qed

lemma updateScore_rendered:
  assumes "map_of (scores d) (''score-'' @ p) \<noteq> None"
  shows "\<exists>d'. updateScore d sc p = Inr d' \<and> grid d' = grid d \<and> messages d' = messages d \<and>
           (\<forall>k. map_of (scores d') k \<noteq> None \<longleftrightarrow> map_of (scores d) k \<noteq> None)"
proof -
  let ?t = "(if p = ''x'' then ''Player 1'' else ''Player 2'') @ '': '' @ show_number (sc p)"
  let ?d = "d\<lparr>scores := AList.update (''score-'' @ p) ?t (scores d)\<rparr>"
  from assms have "updateScore d sc p = Inr ?d"
    by (auto simp: updateScore_def Let_def)
  moreover have "map_of (scores ?d) k \<noteq> None \<longleftrightarrow> map_of (scores d) k \<noteq> None" for k
    using assms by (auto simp: update_conv')
  ultimately show ?thesis by simp
qed

section \<open>What a click does\<close>

lemma clickCell_fault: "cell (board s) row col = Inl e \<Longrightarrow> clickCell s row col = Inl e"
  by (simp add: clickCell_def)

lemma clickCell_ignored:
  "cell (board s) row col = Inr v \<Longrightarrow> v \<noteq> Some '''' \<or> waiting s \<Longrightarrow> clickCell s row col = Inr s"
  by (auto simp add: clickCell_def)

lemma clickCell_move:
  assumes "invariant s" "accepted s row col"
  obtains d d' where
    "is_grid (grid d)" "scores d = scores (display s)" "messages d = []"
    "rendered d'" "messages d' = []"
    "clickCell s row col =
       Inr (if wins s row col
            then gameOver (increaseScore (marked s row col)\<lparr>display := d'\<rparr>) (Some (currentPlayer s))
            else if no_empty_cell (board (marked s row col))
            then gameOver (marked s row col\<lparr>display := d\<rparr>) None
            else switchPlayer (marked s row col\<lparr>display := d\<rparr>))"
proof -
  let ?p = "currentPlayer s"
  let ?m = "marked s row col"
  from assms have g: "is_grid (board s)" and rd: "rendered (display s)"
    and nw: "\<not> waiting s" and c: "cell (board s) row col = Inr (Some '''')"
    and p: "?p = ''x'' \<or> ?p = ''o''" and msg: "messages (display s) = []"
    by (simp_all add: invariant_def accepted_def)
  from g c have rng: "0 \<le> row" "row < 3" "0 \<le> col" "col < 3"
    using cell_empty_range by blast+
  from rd have gd: "is_grid (grid (display s))" by (simp add: rendered_def)
  from gd rng obtain d where d: "updateBoard (display s) row col ?p = Inr d"
    "is_grid (grid d)" "scores d = scores (display s)" "messages d = messages (display s)"
    by (rule updateBoard_rendered)
  from p rd d(3) have "map_of (scores d) (''score-'' @ ?p) \<noteq> None"
    by (auto simp: rendered_def)
  then obtain d' where d': "updateScore d (score (increaseScore ?m)) ?p = Inr d'"
    "grid d' = grid d" "messages d' = messages d"
    "\<And>k. map_of (scores d') k \<noteq> None \<longleftrightarrow> map_of (scores d) k \<noteq> None"
    using updateScore_rendered by blast
  from g have "is_grid (board ?m)" by (simp add: marked_def is_grid_write_cell)
  with rng have w: "isGameWon ?m row col = Inr (pivot_checks (board ?m) (currentPlayer ?m) row col)"
    by (simp add: isGameWon_pivot)
  have "clickCell s row col =
       Inr (if wins s row col
            then gameOver (increaseScore ?m\<lparr>display := d'\<rparr>) (Some ?p)
            else if no_empty_cell (board ?m)
            then gameOver (?m\<lparr>display := d\<rparr>) None
            else switchPlayer (?m\<lparr>display := d\<rparr>))"
    using c nw d(1) d'(1) w
    by (simp add: clickCell_def wins_def stalemate_Nil marked_def increaseScore_def Let_def)
  moreover from d'(2,4) d(2,3) rd have "rendered d'"
    by (simp add: rendered_def)
  ultimately show ?thesis
    using that [of d d'] d d' msg by simp
qed

section \<open>The invariant\<close>

lemma is_count_increase: "is_count (m k) \<Longrightarrow> is_count ((m(p \<mapsto> plus_one (m p))) k)"
  by (cases "k = p") (simp_all add: is_count_plus_one)

lemma invariant_new_game: "invariant new_game"
  by (simp add: invariant_def new_game_def startGame_def constructor_def empty_page_def
      printScoreBoard_def printGameBoard_def createBoard_def is_grid_def rendered_def
      players_x_def Let_def)

lemma invariant_gameOver:
  assumes "is_grid (board t)" "rendered (display t)" "messages (display t) = []"
    "currentPlayer t = ''x'' \<or> currentPlayer t = ''o''"
    "is_count (score t ''x'')" "is_count (score t ''o'')" "timers t = 0"
  shows "invariant (gameOver t w)"
  using assms
  by (simp add: invariant_def gameOver_def printMessage_def rendered_def Let_def)

lemma invariant_win:
  assumes "is_grid (board (marked s row col))" "rendered d'" "messages d' = []"
    "currentPlayer s = ''x'' \<or> currentPlayer s = ''o''"
    "is_count (score s ''x'')" "is_count (score s ''o'')" "timers s = 0"
  shows "invariant (gameOver (increaseScore (marked s row col)\<lparr>display := d'\<rparr>) (Some (currentPlayer s)))"
proof (rule invariant_gameOver)
  show "is_grid (board (increaseScore (marked s row col)\<lparr>display := d'\<rparr>))"
    using assms(1) by (simp add: increaseScore_def)
  show "is_count (score (increaseScore (marked s row col)\<lparr>display := d'\<rparr>) ''x'')"
    using assms(5)
    by (simp add: increaseScore_def marked_def is_count_increase del: fun_upd_apply)
  show "is_count (score (increaseScore (marked s row col)\<lparr>display := d'\<rparr>) ''o'')"
    using assms(6)
    by (simp add: increaseScore_def marked_def is_count_increase del: fun_upd_apply)
qed (use assms in \<open>simp_all add: increaseScore_def marked_def\<close>)

lemma invariant_switchPlayer:
  assumes "is_grid (board t)" "rendered (display t)" "messages (display t) = []"
    "is_count (score t ''x'')" "is_count (score t ''o'')" "timers t = 0" "\<not> waiting t"
  shows "invariant (switchPlayer t)"
  using assms
  by (simp add: invariant_def switchPlayer_def players_x_def players_o_def)

lemma invariant_clickCell:
  assumes "invariant s" "clickCell s row col = Inr s'"
  shows "invariant s'"
proof (cases "accepted s row col")
  case True
  let ?m = "marked s row col"
  from assms(1) True obtain d d' where d: "is_grid (grid d)" "scores d = scores (display s)"
    "messages d = []" "rendered d'" "messages d' = []" and
    c: "clickCell s row col =
       Inr (if wins s row col
            then gameOver (increaseScore ?m\<lparr>display := d'\<rparr>) (Some (currentPlayer s))
            else if no_empty_cell (board ?m)
            then gameOver (?m\<lparr>display := d\<rparr>) None
            else switchPlayer (?m\<lparr>display := d\<rparr>))"
    by (rule clickCell_move)
  from True have nw: "\<not> waiting s" by (simp add: accepted_def)
  from assms(1) nw have i0: "is_grid (board s)" "rendered (display s)"
    "currentPlayer s = ''x'' \<or> currentPlayer s = ''o''"
    "is_count (score s ''x'')" "is_count (score s ''o'')" "timers s = 0"
    unfolding invariant_def by simp_all
  from i0(1) have i1: "is_grid (board ?m)"
    by (simp add: marked_def is_grid_write_cell)
  from i0(2) d(1,2) have i2: "rendered d"
    by (simp add: rendered_def)
  have w: "invariant (gameOver (increaseScore ?m\<lparr>display := d'\<rparr>) (Some (currentPlayer s)))"
    using i1 d(4,5) i0(3-6) by (rule invariant_win)
  have n: "invariant (gameOver (?m\<lparr>display := d\<rparr>) None)"
    by (rule invariant_gameOver) (use i0 i1 i2 d(3) in \<open>simp_all add: marked_def\<close>)
  have p: "invariant (switchPlayer (?m\<lparr>display := d\<rparr>))"
    by (rule invariant_switchPlayer) (use i0 i1 i2 d(3) nw in \<open>simp_all add: marked_def\<close>)
  from c assms(2) have "s' = gameOver (increaseScore ?m\<lparr>display := d'\<rparr>) (Some (currentPlayer s))
      \<or> s' = gameOver (?m\<lparr>display := d\<rparr>) None \<or> s' = switchPlayer (?m\<lparr>display := d\<rparr>)"
    by (simp split: if_splits)
  with w n p show ?thesis by blast
next
  case False
  from assms(2) obtain v where v: "cell (board s) row col = Inr v"
    using clickCell_fault by (cases "cell (board s) row col") fastforce+
  with False have "v \<noteq> Some '''' \<or> waiting s"
    by (auto simp: accepted_def)
  with v have "clickCell s row col = Inr s"
    by (rule clickCell_ignored)
  with assms show ?thesis by simp
qed

lemma timer_fires_waiting:
  assumes "invariant s" "waiting s"
  shows "timer_fires s =
    Inr (s\<lparr>timers := 0, display := clearGameBoard (display s\<lparr>messages := []\<rparr>),
            board := createBoard, waiting := False\<rparr>)"
proof -
  from assms have "length (messages (display s)) = 1" "timers s = 1"
    by (simp_all add: invariant_def)
  then obtain m where "messages (display s) = [m]" "timers s = 1"
    by (cases "messages (display s)") simp_all
  then show ?thesis
    by (simp add: timer_fires_def reset_callback_def resetBoard_def clearMessage_def)
qed

lemma invariant_timer_fires:
  assumes "invariant s" "timer_fires s = Inr s'"
  shows "invariant s'"
proof (cases "waiting s")
  case True
  with assms(1) have "timer_fires s =
    Inr (s\<lparr>timers := 0, display := clearGameBoard (display s\<lparr>messages := []\<rparr>),
            board := createBoard, waiting := False\<rparr>)"
    by (rule timer_fires_waiting)
  with assms(2) have s': "s' = s\<lparr>timers := 0, display := clearGameBoard (display s\<lparr>messages := []\<rparr>),
            board := createBoard, waiting := False\<rparr>" by simp
  from assms(1) have "rendered (display s)" "currentPlayer s = ''x'' \<or> currentPlayer s = ''o''"
    "is_count (score s ''x'')" "is_count (score s ''o'')"
    by (simp_all add: invariant_def)
  then show ?thesis
    unfolding s' invariant_def
    by (simp add: clearGameBoard_def rendered_def is_grid_clear is_grid_createBoard)
next
  case False
  with assms(1) have "timers s = 0" by (simp add: invariant_def)
  with assms(2) have "s' = s" by (simp add: timer_fires_def)
  with assms(1) show ?thesis by simp
qed

lemma reachable_invariant: "reachable s \<Longrightarrow> invariant s"
proof (induction rule: reachable.induct)
  case start
  show ?case by (rule invariant_new_game)
next
  case (click s row col s')
  then show ?case using invariant_clickCell by blast
next
  case (timeout s s')
  then show ?case using invariant_timer_fires by blast
qed

lemma reachable_play: "reachable s \<Longrightarrow> play s clicks = Inr s' \<Longrightarrow> reachable s'"
proof (induction clicks arbitrary: s)
  case Nil
  then show ?case by simp
next
  case (Cons c clicks)
  obtain row col where c: "c = (row, col)" by (cases c)
  from Cons.prems(2) obtain t where t: "clickCell s row col = Inr t" "play t clicks = Inr s'"
    by (auto simp: c split: sum.splits)
  from Cons.prems(1) t(1) have "reachable t" by (rule reachable.click)
  then show ?case using t(2) by (rule Cons.IH)
qed

lemma reachable_after_clicks: "reachable (after_clicks clicks)"
proof (cases "play new_game clicks")
  case (Inl e)
  then show ?thesis by (simp add: after_clicks_def reachable.start)
next
  case (Inr s)
  with reachable.start have "reachable s" by (rule reachable_play)
  with Inr show ?thesis by (simp add: after_clicks_def)
qed

lemma invariant_after_clicks: "invariant (after_clicks clicks)"
  using reachable_after_clicks by (rule reachable_invariant)

lemma terminal_move_keeps_player:
  assumes "invariant s" "accepted s row col"
    "wins s row col \<or> no_empty_cell (board (marked s row col))"
  shows "\<exists>s'. clickCell s row col = Inr s' \<and> waiting s' \<and> currentPlayer s' = currentPlayer s"
proof -
  from assms(1,2) obtain d d' where
    c: "clickCell s row col =
       Inr (if wins s row col
            then gameOver (increaseScore (marked s row col)\<lparr>display := d'\<rparr>) (Some (currentPlayer s))
            else if no_empty_cell (board (marked s row col))
            then gameOver (marked s row col\<lparr>display := d\<rparr>) None
            else switchPlayer (marked s row col\<lparr>display := d\<rparr>))"
    by (rule clickCell_move)
  show ?thesis
    unfolding c using assms(3)
    by (auto simp: gameOver_def increaseScore_def marked_def Let_def)
qed

section \<open>Clicks that are ignored\<close>

text \<open>
  C2. A click on a cell that can be read and is not empty is a no-op: the whole game
  (board, current player, score, waiting flag, and the page too) is returned as it
  was. On a 3x3 board every (row, col) with both indices in 0..2 can be read
  (lemma \<open>cell_in_range\<close>).
\<close>

theorem clickCell_occupied:
  "cell (board s) row col = Inr v \<Longrightarrow> v \<noteq> Some '''' \<Longrightarrow> clickCell s row col = Inr s"
  by (simp add: clickCell_ignored)

theorem clickCell_occupied_witness:
  "cell (board (after_clicks [(0, 0)])) 0 0 = Inr (Some ''x'') \<and> Some ''x'' \<noteq> Some '''' \<and>
   clickCell (after_clicks [(0, 0)]) 0 0 = Inr (after_clicks [(0, 0)])"
proof -
  have c: "cell (board (after_clicks [(0, 0)])) 0 0 = Inr (Some ''x'')"
    by (simp add: eval_defs)
  have n: "Some ''x'' \<noteq> Some ''''" by simp
  from c n clickCell_occupied [OF c n] show ?thesis by simp
qed

text \<open>
  C3. In every reachable state with \<open>waiting = true\<close>, a click on any cell (row and
  col in 0..2) returns the game unchanged; in particular the board is unchanged.
\<close>

theorem clickCell_waiting:
  assumes "reachable s" "waiting s" "0 \<le> row" "row < 3" "0 \<le> col" "col < 3"
  shows "clickCell s row col = Inr s"
proof -
  from assms(1) have "is_grid (board s)"
    using reachable_invariant by (simp add: invariant_def)
  with assms(3-6) have "cell (board s) row col = Inr (Some (board s ! nat row ! nat col))"
    by (simp add: cell_in_range)
  with assms(2) show ?thesis by (simp add: clickCell_ignored)
qed

theorem clickCell_waiting_witness:
  "reachable (after_clicks [(0, 0), (1, 0), (0, 1), (1, 1), (0, 2)]) \<and>
   waiting (after_clicks [(0, 0), (1, 0), (0, 1), (1, 1), (0, 2)]) \<and>
   cell (board (after_clicks [(0, 0), (1, 0), (0, 1), (1, 1), (0, 2)])) 2 2 = Inr (Some '''') \<and>
   clickCell (after_clicks [(0, 0), (1, 0), (0, 1), (1, 1), (0, 2)]) 2 2 =
     Inr (after_clicks [(0, 0), (1, 0), (0, 1), (1, 1), (0, 2)])"
proof -
  let ?s = "after_clicks [(0, 0), (1, 0), (0, 1), (1, 1), (0, 2)]"
  have r: "reachable ?s" by (rule reachable_after_clicks)
  have w: "waiting ?s" by (simp add: eval_defs)
  have c: "cell (board ?s) 2 2 = Inr (Some '''')" by (simp add: eval_defs)
  have "clickCell ?s 2 2 = Inr ?s"
    by (rule clickCell_waiting [OF r w]) simp_all
  with r w c show ?thesis by simp
qed

section \<open>Moves that are accepted\<close>

text \<open>
  The theorems of this section are stated for every game that satisfies \<open>invariant\<close>,
  which every reachable game does (lemma \<open>reachable_invariant\<close>).

  C4. A valid move (empty cell, not waiting) never throws. If it wins, the score of
  the player who moved goes from \<open>n\<close> to \<open>n + 1\<close>, for every count \<open>n\<close> below \<open>2^53\<close>
  (the counts a JavaScript number increments exactly), and the score under every other
  key is unchanged; if it does not win (stalemate, or the round goes on), the score is
  unchanged.
\<close>

theorem clickCell_score:
  assumes "invariant s" "accepted s row col"
  shows "\<exists>s'. clickCell s row col = Inr s' \<and>
           (if wins s row col
            then (\<exists>n. score s (currentPlayer s) = Some (Num n) \<and>
                     (n < 2 ^ 53 \<longrightarrow> score s' (currentPlayer s) = Some (Num (n + 1)))) \<and>
                 (\<forall>k. k \<noteq> currentPlayer s \<longrightarrow> score s' k = score s k)
            else score s' = score s)"
proof -
  let ?m = "marked s row col"
  from assms obtain d d' where
    c: "clickCell s row col =
       Inr (if wins s row col
            then gameOver (increaseScore ?m\<lparr>display := d'\<rparr>) (Some (currentPlayer s))
            else if no_empty_cell (board ?m)
            then gameOver (?m\<lparr>display := d\<rparr>) None
            else switchPlayer (?m\<lparr>display := d\<rparr>))"
    by (rule clickCell_move)
  from assms(1) have "is_count (score s (currentPlayer s))"
    by (auto simp: invariant_def)
  then obtain n where n: "score s (currentPlayer s) = Some (Num n)" "0 \<le> n"
    by (cases "score s (currentPlayer s)" rule: is_count.cases) simp_all
  then have e: "n < 2 ^ 53 \<longrightarrow> plus_one (score s (currentPlayer s)) = Num (n + 1)"
    by (simp add: plus_one_exact)
  show ?thesis
    unfolding c using n(1) e
    by (simp add: gameOver_def increaseScore_def marked_def switchPlayer_def Let_def)
qed

theorem clickCell_score_witness:
  "invariant (after_clicks [(0, 0), (1, 0), (0, 1), (1, 1)]) \<and>
   accepted (after_clicks [(0, 0), (1, 0), (0, 1), (1, 1)]) 0 2 \<and>
   wins (after_clicks [(0, 0), (1, 0), (0, 1), (1, 1)]) 0 2 \<and>
   currentPlayer (after_clicks [(0, 0), (1, 0), (0, 1), (1, 1)]) = ''x'' \<and>
   score (after_clicks [(0, 0), (1, 0), (0, 1), (1, 1)]) ''x'' = Some (Num 0) \<and>
   (0 :: int) < 2 ^ 53 \<and>
   (\<exists>s'. clickCell (after_clicks [(0, 0), (1, 0), (0, 1), (1, 1)]) 0 2 = Inr s' \<and>
         score s' ''x'' = Some (Num 1) \<and>
         score s' ''o'' = score (after_clicks [(0, 0), (1, 0), (0, 1), (1, 1)]) ''o'')"
proof -
  let ?s = "after_clicks [(0, 0), (1, 0), (0, 1), (1, 1)]"
  have i: "invariant ?s" by (rule invariant_after_clicks)
  have a: "accepted ?s 0 2" by (simp add: accepted_def eval_defs)
  have w: "wins ?s 0 2" by (simp add: wins_def marked_def eval_defs)
  have p: "currentPlayer ?s = ''x''" by (simp add: eval_defs)
  have x: "score ?s ''x'' = Some (Num 0)" by (simp add: eval_defs)
  have b: "(0 :: int) < 2 ^ 53" by simp
  from clickCell_score [OF i a] w obtain s' n where
    s': "clickCell ?s 0 2 = Inr s'" "score ?s (currentPlayer ?s) = Some (Num n)"
      "n < 2 ^ 53 \<longrightarrow> score s' (currentPlayer ?s) = Some (Num (n + 1))"
      "\<forall>k. k \<noteq> currentPlayer ?s \<longrightarrow> score s' k = score ?s k"
    by auto
  from s'(2) p x have "n = 0" by simp
  with s'(3) p have "score s' ''x'' = Some (Num 1)" by simp
  moreover from s'(4) p have "score s' ''o'' = score ?s ''o''" by simp
  ultimately show ?thesis using i a w p x b s'(1) by blast
qed

text \<open>
  C5. A valid move that neither wins nor fills the board leaves the game active and
  hands the turn to the other player: from \<open>x\<close> to \<open>o\<close> and from \<open>o\<close> to \<open>x\<close>.
\<close>

theorem clickCell_alternates:
  assumes "invariant s" "accepted s row col" "\<not> wins s row col"
    "\<not> no_empty_cell (board (marked s row col))"
  shows "\<exists>s'. clickCell s row col = Inr s' \<and> \<not> waiting s' \<and>
           currentPlayer s' = (if currentPlayer s = ''x'' then ''o'' else ''x'') \<and>
           currentPlayer s' \<noteq> currentPlayer s"
proof -
  let ?m = "marked s row col"
  from assms(1,2) obtain d d' where
    c: "clickCell s row col =
       Inr (if wins s row col
            then gameOver (increaseScore ?m\<lparr>display := d'\<rparr>) (Some (currentPlayer s))
            else if no_empty_cell (board ?m)
            then gameOver (?m\<lparr>display := d\<rparr>) None
            else switchPlayer (?m\<lparr>display := d\<rparr>))"
    by (rule clickCell_move)
  from assms(1) have p: "currentPlayer s = ''x'' \<or> currentPlayer s = ''o''"
    by (simp add: invariant_def)
  from assms(2) have nw: "\<not> waiting s" by (simp add: accepted_def)
  from p nw show ?thesis
    unfolding c using assms(3,4)
    by (auto simp: switchPlayer_def marked_def players_x_def players_o_def)
qed

theorem clickCell_alternates_witness:
  "invariant (after_clicks [(1, 1)]) \<and> accepted (after_clicks [(1, 1)]) 0 0 \<and>
   \<not> wins (after_clicks [(1, 1)]) 0 0 \<and>
   \<not> no_empty_cell (board (marked (after_clicks [(1, 1)]) 0 0)) \<and>
   currentPlayer (after_clicks [(1, 1)]) = ''o'' \<and>
   (\<exists>s'. clickCell (after_clicks [(1, 1)]) 0 0 = Inr s' \<and> \<not> waiting s' \<and>
         currentPlayer s' = ''x'')"
proof -
  let ?s = "after_clicks [(1, 1)]"
  have i: "invariant ?s" by (rule invariant_after_clicks)
  have a: "accepted ?s 0 0" by (simp add: accepted_def eval_defs)
  have w: "\<not> wins ?s 0 0" by (simp add: wins_def marked_def eval_defs)
  have f: "\<not> no_empty_cell (board (marked ?s 0 0))"
    by (simp add: no_empty_cell_def marked_def eval_defs)
  have p: "currentPlayer ?s = ''o''" by (simp add: eval_defs)
  from clickCell_alternates [OF i a w f] p
  have "\<exists>s'. clickCell ?s 0 0 = Inr s' \<and> \<not> waiting s' \<and> currentPlayer s' = ''x''"
    by auto
  with i a w f p show ?thesis by blast
qed

text \<open>
  C6. The win is checked before the stalemate. A valid move that completes a winning
  line through (row, col) for the current player wins, whether or not it fills the
  board: the round ends (waiting), the message names the current player as the winner,
  and that player's score is incremented by \<^verbatim>\<open>+= 1\<close> (from \<open>n\<close> to \<open>n + 1\<close> for every
  count \<open>n\<close> below \<open>2^53\<close>). The stalemate message is shown exactly when the board is
  full and the move did not win.
\<close>

theorem clickCell_win_before_stalemate:
  assumes "invariant s" "accepted s row col"
  shows "\<exists>s'. clickCell s row col = Inr s' \<and>
           ((\<exists>line \<in> set winning_lines. (row, col) \<in> set line \<and>
               fills (board (marked s row col)) (currentPlayer s) line) \<longrightarrow> wins s row col) \<and>
           (wins s row col \<longrightarrow>
              waiting s' \<and> messages (display s') = [win_message (currentPlayer s)] \<and>
              score s' (currentPlayer s) = Some (plus_one (score s (currentPlayer s))) \<and>
              (\<exists>n. score s (currentPlayer s) = Some (Num n) \<and>
                   (n < 2 ^ 53 \<longrightarrow> score s' (currentPlayer s) = Some (Num (n + 1))))) \<and>
           (messages (display s') = [''Nobody wins!''] \<longleftrightarrow>
              no_empty_cell (board (marked s row col)) \<and> \<not> wins s row col)"
proof -
  let ?m = "marked s row col"
  let ?p = "currentPlayer s"
  from assms obtain d d' where d: "messages d = []" "messages d' = []" and
    c: "clickCell s row col =
       Inr (if wins s row col
            then gameOver (increaseScore ?m\<lparr>display := d'\<rparr>) (Some ?p)
            else if no_empty_cell (board ?m)
            then gameOver (?m\<lparr>display := d\<rparr>) None
            else switchPlayer (?m\<lparr>display := d\<rparr>))"
    by (rule clickCell_move)
  from assms have g: "is_grid (board ?m)" and p: "?p = ''x'' \<or> ?p = ''o''"
    and rng: "0 \<le> row" "row < 3"
    using cell_empty_range [of "board s" row col "''''"]
    by (simp_all add: invariant_def accepted_def marked_def is_grid_write_cell)
  from assms(1) have "is_count (score s ?p)"
    by (auto simp: invariant_def)
  then obtain n where n: "score s ?p = Some (Num n)" "0 \<le> n"
    by (cases "score s ?p" rule: is_count.cases) simp_all
  then have e: "n < 2 ^ 53 \<longrightarrow> plus_one (score s ?p) = Num (n + 1)"
    by (simp add: plus_one_exact)
  have w: "wins s row col"
    if "line \<in> set winning_lines" "(row, col) \<in> set line" "fills (board ?m) ?p line" for line
  proof -
    from that have "pivot_checks (board ?m) (currentPlayer ?m) row col"
      using pivot_line by (simp add: marked_def)
    with g rng show ?thesis
      by (simp add: wins_def isGameWon_pivot)
  qed
  have 1: "(\<exists>line \<in> set winning_lines. (row, col) \<in> set line \<and> fills (board ?m) ?p line)
      \<longrightarrow> wins s row col"
    using w by blast
  have 2: "messages (display (gameOver (increaseScore ?m\<lparr>display := d'\<rparr>) (Some ?p))) =
      [win_message ?p]"
    using p d(2) by (auto simp: gameOver_def printMessage_def truthy_def win_message_def Let_def)
  have 3: "messages (display (gameOver (?m\<lparr>display := d\<rparr>) None)) = [''Nobody wins!'']"
    using d(1) by (simp add: gameOver_def printMessage_def truthy_def Let_def)
  have 4: "messages (display (switchPlayer (?m\<lparr>display := d\<rparr>))) = []"
    using d(1) by (simp add: switchPlayer_def)
  have 5: "waiting (gameOver t w)" for t w
    by (simp add: gameOver_def Let_def)
  have 6: "score (gameOver (increaseScore ?m\<lparr>display := d'\<rparr>) (Some ?p)) ?p =
      Some (plus_one (score s ?p))"
    by (simp add: gameOver_def increaseScore_def marked_def Let_def)
  show ?thesis
    unfolding c using 1 2 3 4 5 6 n(1) e
    by (simp add: win_message_def)
qed

theorem clickCell_win_before_stalemate_witness:
  "invariant (after_clicks [(0, 0), (0, 1), (0, 2), (1, 0), (1, 1), (1, 2), (2, 1), (2, 0)]) \<and>
   accepted (after_clicks [(0, 0), (0, 1), (0, 2), (1, 0), (1, 1), (1, 2), (2, 1), (2, 0)]) 2 2 \<and>
   no_empty_cell (board (marked
     (after_clicks [(0, 0), (0, 1), (0, 2), (1, 0), (1, 1), (1, 2), (2, 1), (2, 0)]) 2 2)) \<and>
   fills (board (marked
     (after_clicks [(0, 0), (0, 1), (0, 2), (1, 0), (1, 1), (1, 2), (2, 1), (2, 0)]) 2 2))
     ''x'' [(0, 0), (1, 1), (2, 2)] \<and>
   (\<exists>s'. clickCell
           (after_clicks [(0, 0), (0, 1), (0, 2), (1, 0), (1, 1), (1, 2), (2, 1), (2, 0)]) 2 2 =
           Inr s' \<and>
         waiting s' \<and> messages (display s') = [''Player 1 wins!''] \<and>
         messages (display s') \<noteq> [''Nobody wins!''] \<and> score s' ''x'' = Some (Num 1))"
proof -
  let ?s = "after_clicks [(0, 0), (0, 1), (0, 2), (1, 0), (1, 1), (1, 2), (2, 1), (2, 0)]"
  have i: "invariant ?s" by (rule invariant_after_clicks)
  have b: "board ?s = [[''x'', ''o'', ''x''], [''o'', ''x'', ''o''], [''o'', ''x'', '''']]"
    and p: "currentPlayer ?s = ''x''" and nw: "\<not> waiting ?s"
    and x: "score ?s ''x'' = Some (Num 0)"
    by (simp_all add: eval_defs)
  have a: "accepted ?s 2 2"
    by (simp add: accepted_def b nw cell_grid js_index3)
  have m: "board (marked ?s 2 2) = [[''x'', ''o'', ''x''], [''o'', ''x'', ''o''], [''o'', ''x'', ''x'']]"
    by (simp add: marked_def b p write_cell_def)
  have f: "no_empty_cell (board (marked ?s 2 2))"
    by (simp add: m no_empty_cell_def)
  have l: "fills (board (marked ?s 2 2)) ''x'' [(0, 0), (1, 1), (2, 2)]"
    by (simp add: m fills_def cell_grid js_index3)
  have "\<exists>line \<in> set winning_lines. (2, 2) \<in> set line \<and>
      fills (board (marked ?s 2 2)) (currentPlayer ?s) line"
    using l by (simp add: winning_lines_def p)
  with clickCell_win_before_stalemate [OF i a] p x
  have "\<exists>s'. clickCell ?s 2 2 = Inr s' \<and> waiting s' \<and>
      messages (display s') = [''Player 1 wins!''] \<and> score s' ''x'' = Some (Num 1)"
    by (auto simp: win_message_def)
  with i a f l show ?thesis by auto
qed

section \<open>The reset\<close>

text \<open>
  C7, as the code has it. A move that ends the round (it wins, or it fills the board)
  does not switch players: the round ends with \<open>currentPlayer\<close> still the player who
  made that last move. In every round that has ended (waiting, under the invariant:
  one timer pending and one message shown) the reset does not throw; after it the
  board is the fresh 3x3 board of empty cells, the message is gone, waiting is false,
  and the current player and the score are what they were when the round ended. So
  the player who made the last move of a round, not the other one, opens the next.
\<close>

theorem reset_keeps_last_mover:
  assumes "invariant s"
  shows "(waiting s \<longrightarrow>
            (\<exists>s'. timer_fires s = Inr s' \<and> board s' = createBoard \<and> all_empty (board s') \<and>
                  \<not> waiting s' \<and> currentPlayer s' = currentPlayer s \<and> score s' = score s \<and>
                  messages (display s') = [])) \<and>
         (accepted s row col \<and> (wins s row col \<or> no_empty_cell (board (marked s row col))) \<longrightarrow>
            (\<exists>e s'. clickCell s row col = Inr e \<and> waiting e \<and>
                    currentPlayer e = currentPlayer s \<and>
                    timer_fires e = Inr s' \<and> board s' = createBoard \<and> all_empty (board s') \<and>
                    \<not> waiting s' \<and> currentPlayer s' = currentPlayer s \<and>
                    currentPlayer s' \<noteq> currentPlayer (switchPlayer s) \<and> score s' = score e))"
proof -
  have frame: "\<exists>s'. timer_fires t = Inr s' \<and> board s' = createBoard \<and> all_empty (board s') \<and>
      \<not> waiting s' \<and> currentPlayer s' = currentPlayer t \<and> score s' = score t \<and>
      messages (display s') = []"
    if "invariant t" "waiting t" for t
  proof -
    from that have "timer_fires t =
      Inr (t\<lparr>timers := 0, display := clearGameBoard (display t\<lparr>messages := []\<rparr>),
              board := createBoard, waiting := False\<rparr>)"
      by (rule timer_fires_waiting)
    moreover have "all_empty createBoard"
      by (simp add: all_empty_def is_grid_def createBoard_def)
    ultimately show ?thesis
      by (simp add: clearGameBoard_def)
  qed
  have last: "\<exists>e s'. clickCell s row col = Inr e \<and> waiting e \<and>
      currentPlayer e = currentPlayer s \<and>
      timer_fires e = Inr s' \<and> board s' = createBoard \<and> all_empty (board s') \<and>
      \<not> waiting s' \<and> currentPlayer s' = currentPlayer s \<and>
      currentPlayer s' \<noteq> currentPlayer (switchPlayer s) \<and> score s' = score e"
    if a: "accepted s row col" and t: "wins s row col \<or> no_empty_cell (board (marked s row col))"
  proof -
    from assms a t obtain e where e: "clickCell s row col = Inr e" "waiting e"
      "currentPlayer e = currentPlayer s"
      using terminal_move_keeps_player by blast
    from assms e(1) have "invariant e" by (rule invariant_clickCell)
    with e(2) obtain s' where s': "timer_fires e = Inr s'" "board s' = createBoard"
      "all_empty (board s')" "\<not> waiting s'" "currentPlayer s' = currentPlayer e"
      "score s' = score e"
      using frame by blast
    from assms have "currentPlayer s \<noteq> currentPlayer (switchPlayer s)"
      by (auto simp: invariant_def switchPlayer_def players_x_def players_o_def)
    with e s' show ?thesis by auto
  qed
  from frame [OF assms] last show ?thesis by blast
qed

theorem reset_keeps_last_mover_witness:
  "invariant (after_clicks [(0, 0), (1, 0), (0, 1), (1, 1)]) \<and>
   accepted (after_clicks [(0, 0), (1, 0), (0, 1), (1, 1)]) 0 2 \<and>
   wins (after_clicks [(0, 0), (1, 0), (0, 1), (1, 1)]) 0 2 \<and>
   currentPlayer (after_clicks [(0, 0), (1, 0), (0, 1), (1, 1)]) = ''x'' \<and>
   invariant (after_clicks [(0, 0), (1, 0), (0, 1), (1, 1), (0, 2)]) \<and>
   waiting (after_clicks [(0, 0), (1, 0), (0, 1), (1, 1), (0, 2)]) \<and>
   (\<exists>e s'. clickCell (after_clicks [(0, 0), (1, 0), (0, 1), (1, 1)]) 0 2 = Inr e \<and>
           waiting e \<and> currentPlayer e = ''x'' \<and> timer_fires e = Inr s' \<and>
           board s' = [['''', '''', ''''], ['''', '''', ''''], ['''', '''', '''']] \<and>
           \<not> waiting s' \<and> currentPlayer s' = ''x'') \<and>
   (\<exists>s'. timer_fires (after_clicks [(0, 0), (1, 0), (0, 1), (1, 1), (0, 2)]) = Inr s' \<and>
         \<not> waiting s' \<and> currentPlayer s' = ''x'' \<and> score s' ''x'' = Some (Num 1))"
proof -
  let ?s = "after_clicks [(0, 0), (1, 0), (0, 1), (1, 1)]"
  let ?e = "after_clicks [(0, 0), (1, 0), (0, 1), (1, 1), (0, 2)]"
  have i: "invariant ?s" and j: "invariant ?e" by (rule invariant_after_clicks)+
  have a: "accepted ?s 0 2" by (simp add: accepted_def eval_defs)
  have w: "wins ?s 0 2" by (simp add: wins_def marked_def eval_defs)
  have p: "currentPlayer ?s = ''x''" by (simp add: eval_defs)
  have we: "waiting ?e" and pe: "currentPlayer ?e = ''x''"
    and x: "score ?e ''x'' = Some (Num 1)"
    by (simp_all add: eval_defs)
  from reset_keeps_last_mover [OF i, of 0 2] a w p
  have 1: "\<exists>e s'. clickCell ?s 0 2 = Inr e \<and> waiting e \<and> currentPlayer e = ''x'' \<and>
      timer_fires e = Inr s' \<and>
      board s' = [['''', '''', ''''], ['''', '''', ''''], ['''', '''', '''']] \<and>
      \<not> waiting s' \<and> currentPlayer s' = ''x''"
    by (auto simp: createBoard_def)
  from reset_keeps_last_mover [OF j, of 0 0] we pe x
  have 2: "\<exists>s'. timer_fires ?e = Inr s' \<and> \<not> waiting s' \<and> currentPlayer s' = ''x'' \<and>
      score s' ''x'' = Some (Num 1)"
    by auto
  from i a w p j we 1 2 show ?thesis by blast
qed

text \<open>
  The claim as the specification words it has the reset keep, as the current player,
  "the player who would have moved next". Here \<open>x\<close> makes the last move of a round,
  at (0, 2), and wins; had the round gone on, \<^verbatim>\<open>switchPlayer\<close> would have made \<open>o\<close>
  the next to move; yet after the reset the current player is \<open>x\<close>.
\<close>

theorem reset_next_player_counterexample:
  "currentPlayer (after_clicks [(0, 0), (1, 0), (0, 1), (1, 1)]) = ''x'' \<and>
   clickCell (after_clicks [(0, 0), (1, 0), (0, 1), (1, 1)]) 0 2 =
     Inr (after_clicks [(0, 0), (1, 0), (0, 1), (1, 1), (0, 2)]) \<and>
   waiting (after_clicks [(0, 0), (1, 0), (0, 1), (1, 1), (0, 2)]) \<and>
   currentPlayer (switchPlayer (after_clicks [(0, 0), (1, 0), (0, 1), (1, 1)])) = ''o'' \<and>
   map_sum id currentPlayer (timer_fires (after_clicks [(0, 0), (1, 0), (0, 1), (1, 1), (0, 2)])) =
     Inr ''x'' \<and>
   map_sum id currentPlayer (timer_fires (after_clicks [(0, 0), (1, 0), (0, 1), (1, 1), (0, 2)])) \<noteq>
     Inr (currentPlayer (switchPlayer (after_clicks [(0, 0), (1, 0), (0, 1), (1, 1)])))"
  by (simp add: eval_defs timer_fires_def reset_callback_def resetBoard_def clearMessage_def
      clearGameBoard_def)

text \<open>
  C8. \<^verbatim>\<open>clearMessage\<close> throws exactly when the page holds no message element. When it
  holds one, the first is removed; so after \<^verbatim>\<open>printMessage\<close> it never throws, and on
  a page with no message before \<^verbatim>\<open>printMessage\<close> it gives that page back.
\<close>

theorem clearMessage_fails_iff:
  "(clearMessage d = Inl TypeError \<longleftrightarrow> messages d = []) \<and>
   (\<forall>m rest. messages d = m # rest \<longrightarrow> clearMessage d = Inr (d\<lparr>messages := rest\<rparr>)) \<and>
   clearMessage (printMessage d w) \<noteq> Inl TypeError \<and>
   (messages d = [] \<longrightarrow> clearMessage (printMessage d w) = Inr d)"
  by (cases "messages d") (simp_all add: clearMessage_def printMessage_def Let_def)

theorem clearMessage_fails_iff_witness:
  "messages empty_page = [] \<and> clearMessage empty_page = Inl TypeError \<and>
   messages (printMessage empty_page (Some ''x'')) = [''Player 1 wins!''] \<and>
   clearMessage (printMessage empty_page (Some ''x'')) = Inr empty_page"
proof -
  have e: "messages empty_page = []" by (simp add: empty_page_def)
  have m: "messages (printMessage empty_page (Some ''x'')) = [''Player 1 wins!'']"
    by (simp add: printMessage_def empty_page_def truthy_def)
  from clearMessage_fails_iff [of empty_page "Some ''x''"] e m show ?thesis by simp
qed

section \<open>Indices out of range\<close>

text \<open>
  C9. \<^verbatim>\<open>clickCell\<close> does not check its indices. With a row outside 0..2 the first
  read, \<^verbatim>\<open>board[row][col]\<close>, throws, and so does the handler (before it has written
  anything). With a row in 0..2 the handler never throws, whatever the column: a
  column outside 0..2 reads \<open>undefined\<close>, which is not the empty string.
\<close>

theorem clickCell_unguarded_row:
  assumes "invariant s"
  shows "(row < 0 \<or> 2 < row \<longrightarrow>
            cell (board s) row col = Inl TypeError \<and> clickCell s row col = Inl TypeError) \<and>
         (0 \<le> row \<and> row \<le> 2 \<longrightarrow> (\<exists>s'. clickCell s row col = Inr s'))"
proof (intro conjI impI)
  from assms have g: "is_grid (board s)" by (simp add: invariant_def)
  {
    assume "row < 0 \<or> 2 < row"
    with g show c: "cell (board s) row col = Inl TypeError"
      by (rule cell_row_out_of_range)
    then show "clickCell s row col = Inl TypeError"
      by (rule clickCell_fault)
  }
  assume r: "0 \<le> row \<and> row \<le> 2"
  with g have v: "cell (board s) row col = Inr (js_index (board s ! nat row) col)"
    by (simp add: cell_row_in_range)
  show "\<exists>s'. clickCell s row col = Inr s'"
  proof (cases "accepted s row col")
    case True
    with assms show ?thesis
      using clickCell_move [of s row col] by metis
  next
    case False
    with v have "clickCell s row col = Inr s"
      by (intro clickCell_ignored [OF v]) (auto simp: accepted_def)
    then show ?thesis by blast
  qed
qed

theorem clickCell_unguarded_row_witness:
  "invariant new_game \<and> clickCell new_game 3 0 = Inl TypeError \<and>
   clickCell new_game (- 1) 0 = Inl TypeError \<and> (\<exists>s'. clickCell new_game 2 5 = Inr s')"
proof -
  have i: "invariant new_game" by (rule invariant_new_game)
  from clickCell_unguarded_row [OF i, of 3 0] clickCell_unguarded_row [OF i, of "- 1" 0]
    clickCell_unguarded_row [OF i, of 2 5] i
  show ?thesis by simp
qed

section \<open>The inner guard\<close>

text \<open>
  C10. Nothing between the outer guard of \<^verbatim>\<open>clickCell\<close> and the inner test of
  \<^verbatim>\<open>waiting\<close> writes that field, so the handler equals, on every game and every pair of
  indices, the handler with the inner test removed.
\<close>

theorem clickCell_inner_guard_redundant:
  "clickCell s row col = clickCell_single_guard s row col"
  by (simp add: clickCell_def clickCell_single_guard_def Let_def split: sum.splits)

theorem clickCell_inner_guard_redundant_witness:
  "clickCell new_game 0 0 = clickCell_single_guard new_game 0 0 \<and>
   (\<exists>s'. clickCell_single_guard new_game 0 0 = Inr s' \<and> currentPlayer s' = ''o'')"
proof -
  have "\<exists>s'. clickCell new_game 0 0 = Inr s' \<and> currentPlayer s' = ''o''"
    by (simp add: eval_defs)
  with clickCell_inner_guard_redundant [of new_game 0 0] show ?thesis by simp
qed

end
